theory Spec2Isabelle
  imports Complex_Main "HOL-Library.AList" "HOL-Library.Char_ord"
    "HOL-Library.List_Lexorder" "HOL-Library.Option_ord" "HOL-Library.Product_Lexorder"
begin

section \<open>Values shared by ingestion and queries\<close>

text \<open>
  Python exceptions that the code of \<^verbatim>\<open>view.py\<close> can meet. An exception is a value
  \<open>Inl e\<close> of a sum type; a normal return is \<open>Inr v\<close>.
\<close>

datatype pyerror = ValueError | AttributeError | IndexError | ParserError

text \<open>
  A calendar date is (year, month, day) and a time of day is (hour, minute, second); the
  lexicographic order on the triples is the chronological order.
\<close>

type_synonym date = "nat \<times> nat \<times> nat"
type_synonym time = "int \<times> int \<times> int"

definition is_leap :: "nat \<Rightarrow> bool" where
  "is_leap y = (y mod 4 = 0 \<and> (y mod 100 \<noteq> 0 \<or> y mod 400 = 0))"

definition days_in_month :: "nat \<Rightarrow> nat \<Rightarrow> nat" where
  "days_in_month y m =
     (if m = 2 then (if is_leap y then 29 else 28)
      else if m = 4 \<or> m = 6 \<or> m = 9 \<or> m = 11 then 30 else 31)"

definition valid_date :: "date \<Rightarrow> bool" where
  "valid_date d = (case d of (y, m, dd) \<Rightarrow>
     1 \<le> y \<and> 1 \<le> m \<and> m \<le> 12 \<and> 1 \<le> dd \<and> dd \<le> days_in_month y m)"

text \<open>\<^verbatim>\<open>datetime.date(year, month, day)\<close>: ValueError when the day is out of range for the month.\<close>

definition datetime_date :: "nat \<Rightarrow> nat \<Rightarrow> nat \<Rightarrow> pyerror + date" where
  "datetime_date y m d = (if valid_date (y, m, d) then Inr (y, m, d) else Inl ValueError)"

text \<open>\<^verbatim>\<open>datetime.time(hour, minute, second)\<close>: ValueError when a component is out of range.\<close>

definition datetime_time :: "int \<Rightarrow> int \<Rightarrow> int \<Rightarrow> pyerror + time" where
  "datetime_time h m s =
     (if 0 \<le> h \<and> h < 24 \<and> 0 \<le> m \<and> m < 60 \<and> 0 \<le> s \<and> s < 60
      then Inr (h, m, s) else Inl ValueError)"

section \<open>Time normalizer: \<^verbatim>\<open>to_safe_time\<close>\<close>

text \<open>
  A spreadsheet cell as \<^verbatim>\<open>to_safe_time\<close> distinguishes it: missing (\<^verbatim>\<open>None\<close> or NaN), already
  a \<^verbatim>\<open>datetime.time\<close>, a number (\<^verbatim>\<open>float\<close> or \<^verbatim>\<open>int\<close>, taken here as an exact real), or
  anything else, which the code reads through its text form.
\<close>

datatype cell = Missing | TimeCell time | Num real | Other string

text \<open>Python's \<^verbatim>\<open>int(x)\<close> on a number truncates towards zero.\<close>

definition py_int :: "real \<Rightarrow> int" where
  "py_int x = (if 0 \<le> x then \<lfloor>x\<rfloor> else \<lceil>x\<rceil>)"

text \<open>
  The parameter \<open>parse_time\<close> stands for \<^verbatim>\<open>pd.to_datetime(str(t), errors='coerce').time()\<close>:
  \<open>None\<close> when the text is not a time (pandas yields NaT, whose \<^verbatim>\<open>time()\<close> raises the
  ValueError that the code catches).
\<close>

definition to_safe_time :: "(string \<Rightarrow> time option) \<Rightarrow> cell \<Rightarrow> pyerror + time option" where
  "to_safe_time parse_time t =
     (case t of
        Missing \<Rightarrow> Inr None
      | TimeCell x \<Rightarrow> Inr (Some x)
      | Num x \<Rightarrow>
          (let total_seconds = py_int (x * 24 * 60 * 60);
               total_seconds = min total_seconds 86399;
               hours = total_seconds div 3600;
               remainder = total_seconds mod 3600;
               minutes = remainder div 60;
               seconds = remainder mod 60
           in case datetime_time hours minutes seconds of
                Inl e \<Rightarrow> Inl e
              | Inr tm \<Rightarrow> Inr (Some tm))
      | Other s \<Rightarrow> Inr (parse_time s))"

section \<open>The two stores\<close>

text \<open>
  Modelled from the spec: the tables \<^verbatim>\<open>Roster\<close> and \<^verbatim>\<open>Attendance\<close> (\<^verbatim>\<open>models.py\<close> is not
  among the sources). The fields are the ones \<^verbatim>\<open>view.py\<close> reads and writes; a table is the
  list of its rows in insertion order, and a row is identified by (name, date).
\<close>

record roster =
  r_name :: "string option"
  r_date :: date
  r_team :: "string option"
  r_schedule :: "string option"

record attendance =
  a_name :: "string option"
  a_date :: date
  a_employee_id :: "string option"
  a_user_type :: "string option"
  a_designation :: "string option"
  a_department :: "string option"
  a_location :: "string option"
  a_first_in :: "time option"
  a_last_out :: "time option"
  a_gross_time :: "time option"
  a_out_of_office_time :: "time option"
  a_out_of_office_count :: "int option"
  a_net_office_time :: "time option"

definition roster_key :: "roster \<Rightarrow> string option \<times> date" where
  "roster_key r = (r_name r, r_date r)"

definition attendance_key :: "attendance \<Rightarrow> string option \<times> date" where
  "attendance_key a = (a_name a, a_date a)"

text \<open>
  \<^verbatim>\<open>objects.update_or_create(name=..., date=..., defaults=...)\<close>: the row with that key gets the
  default fields, or a new row is appended. Every field that is not part of the key is
  among the defaults at both call sites, so the updated row is the row built from the
  arguments, written here as \<open>new\<close>.
\<close>

fun update_or_create :: "('r \<Rightarrow> 'k) \<Rightarrow> 'r \<Rightarrow> 'r list \<Rightarrow> 'r list" where
  "update_or_create key new [] = [new]"
| "update_or_create key new (row # rows) =
     (if key row = key new then new # rows else row # update_or_create key new rows)"

section \<open>Name reconciler\<close>

text \<open>
  \<^verbatim>\<open>process.extractOne(query, choices, scorer=...)\<close> of the rapidfuzz library walks the choices
  in order and keeps a choice only when its score is strictly greater than the best so
  far, so that the first of several maxima is returned; no choice gives \<^verbatim>\<open>None\<close>. The
  scorer (\<^verbatim>\<open>fuzz.token_set_ratio\<close>, a number from 0 to 100) is a parameter.
\<close>

fun extractOne_loop ::
  "(string \<Rightarrow> real) \<Rightarrow> string list \<Rightarrow> (string \<times> real) option \<Rightarrow> (string \<times> real) option" where
  "extractOne_loop score [] result = result"
| "extractOne_loop score (choice # choices) result =
     extractOne_loop score choices
       (case result of
          None \<Rightarrow> Some (choice, score choice)
        | Some (c, best) \<Rightarrow> if score choice > best then Some (choice, score choice) else result)"

definition extractOne ::
  "(string \<Rightarrow> string \<Rightarrow> real) \<Rightarrow> string \<Rightarrow> string list \<Rightarrow> (string \<times> real) option" where
  "extractOne scorer query choices = extractOne_loop (scorer query) choices None"

text \<open>\<^verbatim>\<open>Series.dropna()\<close> and \<^verbatim>\<open>Series.unique()\<close> (first occurrences, in order).\<close>

fun dropna :: "'a option list \<Rightarrow> 'a list" where
  "dropna [] = []"
| "dropna (None # xs) = dropna xs"
| "dropna (Some x # xs) = x # dropna xs"

definition unique :: "'a list \<Rightarrow> 'a list" where
  "unique xs = fold (\<lambda>x seen. if x \<in> set seen then seen else seen @ [x]) xs []"

text \<open>Lines 53 to 58 of \<^verbatim>\<open>post\<close>: the dictionary \<^verbatim>\<open>name_map\<close>, in insertion order.\<close>

definition name_map_step ::
  "(string \<Rightarrow> string \<Rightarrow> real) \<Rightarrow> string list \<Rightarrow> string \<Rightarrow> (string \<times> string) list
    \<Rightarrow> (string \<times> string) list" where
  "name_map_step scorer roster_names att_name name_map =
     (case extractOne scorer att_name roster_names of
        None \<Rightarrow> name_map
      | Some (canonical_name, score) \<Rightarrow>
          if score \<ge> 90 then AList.update att_name canonical_name name_map else name_map)"

definition build_name_map ::
  "(string \<Rightarrow> string \<Rightarrow> real) \<Rightarrow> string list \<Rightarrow> string list \<Rightarrow> (string \<times> string) list" where
  "build_name_map scorer roster_names attendance_names =
     fold (name_map_step scorer roster_names) attendance_names []"

section \<open>Upload: \<^verbatim>\<open>FileUploadView\<close>\<close>

text \<open>
  The roster sheet after \<^verbatim>\<open>read_excel\<close>: a row gives the cell under \<^verbatim>\<open>name\<close>, the cell under
  \<^verbatim>\<open>sr no\<close>, and its columns as \<^verbatim>\<open>row.items()\<close> yields them (header, cell). An empty cell
  is \<open>None\<close>.
\<close>

record roster_row =
  rr_name :: "string option"
  rr_team :: "string option"
  rr_items :: "(string \<times> string option) list"

text \<open>A date cell of the attendance sheet: empty, text, or a date the sheet already holds.\<close>

datatype dcell = DMissing | DText string | DStamp date

text \<open>The attendance sheet under the thirteen positional column names of \<^verbatim>\<open>post\<close>.\<close>

record attendance_row =
  ads_id :: "string option"
  name_in_attendance :: "string option"
  user_type :: "string option"
  designation :: "string option"
  department :: "string option"
  location :: "string option"
  first_in :: cell
  last_out :: cell
  gross_time :: cell
  out_of_office_time :: cell
  out_of_office_count :: "int option"
  net_office_time :: cell
  attendance_date :: dcell

text \<open>
  What \<^verbatim>\<open>pd.to_datetime(x, dayfirst=True, errors='coerce')\<close> returns for one value: \<^verbatim>\<open>None\<close>
  for \<^verbatim>\<open>None\<close>, the not-a-time marker \<^verbatim>\<open>NaT\<close> for text that is no date, a timestamp
  otherwise. The parameter \<open>parse_date\<close> is the day-first reading of a text.
\<close>

datatype stamp = PyNone | NaT | Timestamp date

definition to_datetime :: "(string \<Rightarrow> date option) \<Rightarrow> dcell \<Rightarrow> stamp" where
  "to_datetime parse_date x =
     (case x of
        DMissing \<Rightarrow> PyNone
      | DText s \<Rightarrow> (case parse_date s of None \<Rightarrow> NaT | Some d \<Rightarrow> Timestamp d)
      | DStamp d \<Rightarrow> Timestamp d)"

text \<open>
  Lines 46 and 47: the whole column converted, where an empty cell is NaT as well, and
  \<^verbatim>\<open>dropna()\<close> keeps the timestamps.
\<close>

definition column_dates :: "(string \<Rightarrow> date option) \<Rightarrow> attendance_row list \<Rightarrow> date list" where
  "column_dates parse_date df =
     dropna (map (\<lambda>row. case to_datetime parse_date (attendance_date row) of
                           Timestamp d \<Rightarrow> Some d | _ \<Rightarrow> None) df)"

text \<open>\<^verbatim>\<open>str.isdigit()\<close> and \<^verbatim>\<open>int(...)\<close> on ASCII text.\<close>

definition isdigit :: "string \<Rightarrow> bool" where
  "isdigit s = (s \<noteq> [] \<and> list_all (\<lambda>c. 48 \<le> (of_char c :: nat) \<and> (of_char c :: nat) \<le> 57) s)"

definition int_of_digits :: "string \<Rightarrow> nat" where
  "int_of_digits s = fold (\<lambda>c n. 10 * n + ((of_char c :: nat) - 48)) s 0"

text \<open>
  \<^verbatim>\<open>_process_roster_data\<close>, inner loop over the columns of one row. The ValueError of
  \<^verbatim>\<open>datetime.date\<close> is caught and the loop goes on with the next column.
\<close>

fun process_roster_items ::
  "nat \<Rightarrow> nat \<Rightarrow> string option \<Rightarrow> string option \<Rightarrow> (string \<times> string option) list
    \<Rightarrow> roster list \<Rightarrow> roster list" where
  "process_roster_items year month name team [] store = store"
| "process_roster_items year month name team ((col_name, schedule) # items) store =
     (if isdigit col_name then
        (case datetime_date year month (int_of_digits col_name) of
           Inr date \<Rightarrow>
             process_roster_items year month name team items
               (update_or_create roster_key
                  \<lparr>r_name = name, r_date = date, r_team = team, r_schedule = schedule\<rparr> store)
         | Inl e \<Rightarrow> process_roster_items year month name team items store)
      else process_roster_items year month name team items store)"

fun process_roster_data :: "nat \<Rightarrow> nat \<Rightarrow> roster_row list \<Rightarrow> roster list \<Rightarrow> roster list" where
  "process_roster_data year month [] store = store"
| "process_roster_data year month (row # df) store =
     process_roster_data year month df
       (process_roster_items year month (rr_name row) (rr_team row) (rr_items row) store)"

text \<open>
  The parameters of the model that stand for library calls: the scorer of the name
  reconciler and the two text parsers.
\<close>

record lib =
  scorer :: "string \<Rightarrow> string \<Rightarrow> real"
  parse_date :: "string \<Rightarrow> date option"
  parse_time :: "string \<Rightarrow> time option"

text \<open>
  One row of \<^verbatim>\<open>_process_attendance_data\<close>, with its \<^verbatim>\<open>name\<close> column. The result is the
  exception that leaves the loop, or the new store.
  \<^item> \<^verbatim>\<open>.date()\<close> on \<^verbatim>\<open>None\<close> raises AttributeError; on NaT it returns NaT.
  \<^item> NaT is not false in Python, and neither is a date, so the guard
    \<^verbatim>\<open>if not attendance_date: continue\<close> lets both through.
  \<^item> The default fields are computed, in the order of the dictionary, before the store is
    called; \<^verbatim>\<open>to_safe_time\<close> may raise there.
  \<^item> Modelled from the spec: the date column holds calendar dates, so the store has no row
    for NaT; the call with NaT ends in a ValueError.
\<close>

definition bool_of_stamp :: "stamp \<Rightarrow> bool" where
  "bool_of_stamp x = (case x of PyNone \<Rightarrow> False | NaT \<Rightarrow> True | Timestamp d \<Rightarrow> True)"

definition process_attendance_row ::
  "lib \<Rightarrow> string option \<times> attendance_row \<Rightarrow> attendance list \<Rightarrow> pyerror + attendance list" where
  "process_attendance_row L nrow store =
     (case nrow of (name, row) \<Rightarrow>
      (case to_datetime (parse_date L) (attendance_date row) of
         PyNone \<Rightarrow> Inl AttributeError
       | the_date \<Rightarrow>
          if \<not> bool_of_stamp the_date then Inr store
          else
          (case to_safe_time (parse_time L) (first_in row) of Inl e \<Rightarrow> Inl e | Inr t_first_in \<Rightarrow>
          (case to_safe_time (parse_time L) (last_out row) of Inl e \<Rightarrow> Inl e | Inr t_last_out \<Rightarrow>
          (case to_safe_time (parse_time L) (gross_time row) of Inl e \<Rightarrow> Inl e | Inr t_gross_time \<Rightarrow>
          (case to_safe_time (parse_time L) (out_of_office_time row) of Inl e \<Rightarrow> Inl e | Inr t_out \<Rightarrow>
          (case to_safe_time (parse_time L) (net_office_time row) of Inl e \<Rightarrow> Inl e | Inr t_net \<Rightarrow>
          (case the_date of
             Timestamp d \<Rightarrow>
               Inr (update_or_create attendance_key
                 \<lparr>a_name = name, a_date = d, a_employee_id = ads_id row,
                  a_user_type = user_type row, a_designation = designation row,
                  a_department = department row, a_location = location row,
                  a_first_in = t_first_in, a_last_out = t_last_out,
                  a_gross_time = t_gross_time, a_out_of_office_time = t_out,
                  a_out_of_office_count = out_of_office_count row,
                  a_net_office_time = t_net\<rparr> store)
           | _ \<Rightarrow> Inl ValueError))))))))"

text \<open>
  The loop of \<^verbatim>\<open>_process_attendance_data\<close>. Rows written before an exception stay written:
  the result carries the store as it is when the loop ends, and the exception if any.
\<close>

fun process_attendance_data ::
  "lib \<Rightarrow> (string option \<times> attendance_row) list \<Rightarrow> attendance list
    \<Rightarrow> pyerror option \<times> attendance list" where
  "process_attendance_data L [] store = (None, store)"
| "process_attendance_data L (nrow # df) store =
     (case process_attendance_row L nrow store of
        Inl e \<Rightarrow> (Some e, store)
      | Inr store' \<Rightarrow> process_attendance_data L df store')"

text \<open>Response bodies of the upload, and the response with its HTTP status.\<close>

datatype upload_body =
    UploadBothFiles
  | ErrorOccurred pyerror
  | ProcessedFor nat nat

record files =
  roster_file :: "roster_row list option"
  attendance_file :: "attendance_row list option"

text \<open>\<^verbatim>\<open>Series.map(name_map)\<close> on one cell and \<^verbatim>\<open>Series.isin(values)\<close> on one cell.\<close>

definition map_name :: "(string \<times> string) list \<Rightarrow> string option \<Rightarrow> string option" where
  "map_name name_map x = (case x of None \<Rightarrow> None | Some raw \<Rightarrow> map_of name_map raw)"

definition isin :: "string option \<Rightarrow> string list \<Rightarrow> bool" where
  "isin x vs = (case x of None \<Rightarrow> False | Some n \<Rightarrow> n \<in> set vs)"

text \<open>
  Lines 50 to 63 of \<^verbatim>\<open>post\<close>: the name map of the two sheets, the roster rows that are kept
  and the attendance rows that are kept, each with its \<^verbatim>\<open>name\<close> column.
\<close>

definition roster_names_of :: "roster_row list \<Rightarrow> string list" where
  "roster_names_of roster_df = unique (dropna (map rr_name roster_df))"

definition attendance_names_of :: "attendance_row list \<Rightarrow> string list" where
  "attendance_names_of attendance_df = unique (dropna (map name_in_attendance attendance_df))"

definition name_map_of :: "lib \<Rightarrow> roster_row list \<Rightarrow> attendance_row list \<Rightarrow> (string \<times> string) list" where
  "name_map_of L roster_df attendance_df =
     build_name_map (scorer L) (roster_names_of roster_df) (attendance_names_of attendance_df)"

definition matched_roster :: "(string \<times> string) list \<Rightarrow> roster_row list \<Rightarrow> roster_row list" where
  "matched_roster name_map roster_df =
     (let matched_names = map snd name_map
      in filter (\<lambda>row. isin (rr_name row) matched_names) roster_df)"

definition matched_attendance ::
  "(string \<times> string) list \<Rightarrow> attendance_row list \<Rightarrow> (string option \<times> attendance_row) list" where
  "matched_attendance name_map attendance_df =
     filter (\<lambda>nrow. fst nrow \<noteq> None)
       (map (\<lambda>row. (map_name name_map (name_in_attendance row), row)) attendance_df)"

text \<open>
  \<^verbatim>\<open>FileUploadView.post\<close>: the response and the two stores afterwards. Every exception
  inside the \<^verbatim>\<open>try\<close> block gives status 500; what was written before it stays.
\<close>

definition post ::
  "lib \<Rightarrow> files \<Rightarrow> roster list \<times> attendance list
    \<Rightarrow> (nat \<times> upload_body) \<times> (roster list \<times> attendance list)" where
  "post L request stores =
     (case (roster_file request, attendance_file request) of
        (Some roster_df, Some attendance_df) \<Rightarrow>
          (case column_dates (parse_date L) attendance_df of
             [] \<Rightarrow> ((500, ErrorOccurred IndexError), stores)
           | first_valid_date # rest \<Rightarrow>
               (let processing_year = fst first_valid_date;
                    processing_month = fst (snd first_valid_date);
                    name_map = name_map_of L roster_df attendance_df;
                    roster_store =
                      process_roster_data processing_year processing_month
                        (matched_roster name_map roster_df) (fst stores);
                    result =
                      process_attendance_data L (matched_attendance name_map attendance_df)
                        (snd stores)
                in (case fst result of
                      Some e \<Rightarrow> ((500, ErrorOccurred e), (roster_store, snd result))
                    | None \<Rightarrow>
                        ((201, ProcessedFor processing_year processing_month),
                         (roster_store, snd result)))))
      | _ \<Rightarrow> ((400, UploadBothFiles), stores))"

section \<open>Queries: \<^verbatim>\<open>SearchView\<close>\<close>

text \<open>The query parameters; \<^verbatim>\<open>query_params.get\<close> gives \<^verbatim>\<open>None\<close> for an absent one.\<close>

record query_params =
  p_action :: "string option"
  p_q :: "string option"
  p_id :: "string option"
  p_teamname :: "string option"
  p_shift :: "string option"
  p_start_date :: "string option"
  p_end_date :: "string option"

text \<open>Python's truth value of a parameter: \<^verbatim>\<open>None\<close> and the empty string are false.\<close>

definition str_of :: "string option \<Rightarrow> string" where
  "str_of x = (case x of None \<Rightarrow> [] | Some s \<Rightarrow> s)"

definition truthy :: "string option \<Rightarrow> bool" where
  "truthy x = (str_of x \<noteq> [])"

subsection \<open>Dates\<close>

text \<open>
  \<^verbatim>\<open>d.replace(day=n)\<close>, \<^verbatim>\<open>d + timedelta(days=n)\<close> and \<^verbatim>\<open>d - timedelta(days=n)\<close> on the
  proleptic Gregorian calendar. Python's upper bound on the year (9999) is not modelled.
\<close>

definition replace_day :: "date \<Rightarrow> nat \<Rightarrow> date" where
  "replace_day d n = (fst d, fst (snd d), n)"

definition day_of :: "date \<Rightarrow> nat" where
  "day_of d = snd (snd d)"

definition next_day :: "date \<Rightarrow> date" where
  "next_day d = (case d of (y, m, dd) \<Rightarrow>
     if dd < days_in_month y m then (y, m, dd + 1)
     else if m < 12 then (y, m + 1, 1) else (y + 1, 1, 1))"

definition prev_day :: "date \<Rightarrow> date" where
  "prev_day d = (case d of (y, m, dd) \<Rightarrow>
     if 1 < dd then (y, m, dd - 1)
     else if 1 < m then (y, m - 1, days_in_month y (m - 1)) else (y - 1, 12, 31))"

definition add_days :: "date \<Rightarrow> nat \<Rightarrow> date" where
  "add_days d n = (next_day ^^ n) d"

definition sub_days :: "date \<Rightarrow> nat \<Rightarrow> date" where
  "sub_days d n = (prev_day ^^ n) d"

definition in_range :: "date \<Rightarrow> date \<Rightarrow> date \<Rightarrow> bool" where
  "in_range start_date end_date d = (start_date \<le> d \<and> d \<le> end_date)"

text \<open>\<^verbatim>\<open>Attendance.objects.order_by('-date').first()\<close>: a row with the greatest date.\<close>

definition last_attendance :: "attendance list \<Rightarrow> attendance option" where
  "last_attendance store =
     fold (\<lambda>a best. case best of
                       None \<Rightarrow> Some a
                     | Some b \<Rightarrow> if a_date b < a_date a then Some a else best) store None"

text \<open>
  \<^verbatim>\<open>_get_date_range\<close>. The parameter \<open>to_date\<close> is \<^verbatim>\<open>pd.to_datetime(s).date()\<close> on a query
  string, \<open>None\<close> when pandas raises. The pair \<^verbatim>\<open>(None, None)\<close> is \<open>None\<close>.
\<close>

definition get_date_range ::
  "(string \<Rightarrow> date option) \<Rightarrow> query_params \<Rightarrow> attendance list \<Rightarrow> pyerror + (date \<times> date) option" where
  "get_date_range to_date request store =
     (if truthy (p_start_date request) then
        (case to_date (str_of (p_start_date request)) of
           None \<Rightarrow> Inl ParserError
         | Some start_date \<Rightarrow>
             if truthy (p_end_date request) then
               (case to_date (str_of (p_end_date request)) of
                  None \<Rightarrow> Inl ParserError
                | Some end_date \<Rightarrow> Inr (Some (start_date, end_date)))
             else Inr (Some (start_date, start_date)))
      else
        (case last_attendance store of
           None \<Rightarrow> Inr None
         | Some latest \<Rightarrow>
             (let target_date = a_date latest;
                  start_date = replace_day target_date 1;
                  next_month = add_days (replace_day start_date 28) 4;
                  end_date = sub_days next_month (day_of next_month)
              in Inr (Some (start_date, end_date)))))"

subsection \<open>Text lookups of the store\<close>

text \<open>
  \<^verbatim>\<open>str.upper()\<close> on ASCII text, and the lookups \<^verbatim>\<open>iexact\<close> and \<^verbatim>\<open>icontains\<close>, which compare
  without regard to case; a NULL column matches nothing.
\<close>

definition upper_char :: "char \<Rightarrow> char" where
  "upper_char c =
     (if 97 \<le> (of_char c :: nat) \<and> (of_char c :: nat) \<le> 122
      then char_of ((of_char c :: nat) - 32) else c)"

definition upper :: "string \<Rightarrow> string" where
  "upper s = map upper_char s"

definition iexact :: "string option \<Rightarrow> string \<Rightarrow> bool" where
  "iexact column v = (case column of None \<Rightarrow> False | Some s \<Rightarrow> upper s = upper v)"

definition contains :: "string \<Rightarrow> string \<Rightarrow> bool" where
  "contains s w = list_ex (\<lambda>i. take (length w) (drop i s) = w) [0..<Suc (length s)]"

definition icontains :: "string option \<Rightarrow> string \<Rightarrow> bool" where
  "icontains column w = (case column of None \<Rightarrow> False | Some s \<Rightarrow> contains (upper s) (upper w))"

text \<open>\<^verbatim>\<open>str.split()\<close>: the maximal runs of characters that are not ASCII whitespace.\<close>

definition isspace :: "char \<Rightarrow> bool" where
  "isspace c = (let n = (of_char c :: nat) in (9 \<le> n \<and> n \<le> 13) \<or> (28 \<le> n \<and> n \<le> 32))"

fun split_from :: "string \<Rightarrow> string \<Rightarrow> string list" where
  "split_from word [] = (if word = [] then [] else [word])"
| "split_from word (c # cs) =
     (if isspace c then (if word = [] then split_from [] cs else word # split_from [] cs)
      else split_from (word @ [c]) cs)"

definition split :: "string \<Rightarrow> string list" where
  "split s = split_from [] s"

text \<open>\<^verbatim>\<open>name__in=...\<close> against a list of names: NULL is in no list.\<close>

definition name_in :: "string option \<Rightarrow> string option list \<Rightarrow> bool" where
  "name_in n names = (n \<noteq> None \<and> n \<in> set names)"

subsection \<open>Responses\<close>

record counts =
  total_wfo :: nat
  total_wfh :: nat
  total_wo :: nat
  total_pl :: nat
  total_working_days :: nat
  total_leaves :: nat

record count_result =
  employee :: "string option"
  employee_id :: "string option"
  period_start :: date
  period_end :: date
  counts_of :: counts

record hours_result =
  h_name :: "string option"
  h_employee_id :: "string option"
  h_team :: "string option"
  h_date :: date
  h_shift :: "string option"
  h_net_office_time :: "time option"

text \<open>
  A search result: the roster fields and the attendance row joined to them, from which
  the response reads the employee id and the attendance details, or \<open>None\<close>.
\<close>

record search_result =
  s_name :: "string option"
  s_team :: "string option"
  s_date :: date
  s_schedule :: "string option"
  s_attendance :: "attendance option"

datatype query_body =
    NameOrIdRequired
  | NoDataForPeriod
  | NoEmployeeWithId string
  | NoEmployeeMatching string
  | NoDataFound
  | Unhandled pyerror
  | CountResults "count_result list"
  | LowHours nat "hours_result list"
  | NonPlLowHours nat "hours_result list"
  | SearchResults "search_result list"

type_synonym response = "nat \<times> query_body"

subsection \<open>\<^verbatim>\<open>_perform_count\<close>\<close>

definition WFO_SCHEDULES :: "string set" where
  "WFO_SCHEDULES = {''WFO-M'', ''WFO-G'', ''WFO-G2'', ''WFO-S'', ''WFO-N''}"

definition WFH_SCHEDULES :: "string set" where
  "WFH_SCHEDULES = {''WFH-M'', ''WFH-G'', ''WFH-G2'', ''WFH-S'', ''WFH-N''}"

text \<open>\<^verbatim>\<open>str(entry.schedule).upper() if entry.schedule else ""\<close>\<close>

definition schedule_of :: "roster \<Rightarrow> string" where
  "schedule_of entry = (if truthy (r_schedule entry) then upper (str_of (r_schedule entry)) else [])"

text \<open>The body of the loop over the roster entries of one employee.\<close>

definition count_entry :: "roster \<Rightarrow> counts \<Rightarrow> counts" where
  "count_entry entry c =
     (let schedule = schedule_of entry in
      if schedule \<in> WFO_SCHEDULES then c\<lparr>total_wfo := total_wfo c + 1\<rparr>
      else if schedule \<in> WFH_SCHEDULES then c\<lparr>total_wfh := total_wfh c + 1\<rparr>
      else if schedule = ''WO'' then c\<lparr>total_wo := total_wo c + 1\<rparr>
      else if schedule = ''PL'' then c\<lparr>total_pl := total_pl c + 1\<rparr>
      else c)"

text \<open>
  The counters of one employee. The two derived entries are absent from the dictionary
  until the loop is over; they are 0 in the record until then.
\<close>

definition count_entries :: "roster list \<Rightarrow> counts" where
  "count_entries employee_rosters =
     (let c = fold count_entry employee_rosters
                \<lparr>total_wfo = 0, total_wfh = 0, total_wo = 0, total_pl = 0,
                 total_working_days = 0, total_leaves = 0\<rparr>
      in c\<lparr>total_working_days := total_wfo c + total_wfh c,
           total_leaves := total_wo c + total_pl c\<rparr>)"

definition rosters_in_range :: "date \<Rightarrow> date \<Rightarrow> roster list \<Rightarrow> roster list" where
  "rosters_in_range start_date end_date rosters =
     filter (\<lambda>r. in_range start_date end_date (r_date r)) rosters"

text \<open>\<^verbatim>\<open>Attendance.objects.filter(employee_id__iexact=..., date__range=...)\<close>, distinct names.\<close>

definition names_with_id :: "string \<Rightarrow> date \<Rightarrow> date \<Rightarrow> attendance list \<Rightarrow> string option list" where
  "names_with_id eid start_date end_date attendances =
     unique (map a_name
       (filter (\<lambda>a. iexact (a_employee_id a) eid \<and> in_range start_date end_date (a_date a))
          attendances))"

text \<open>The loop \<^verbatim>\<open>for word in query_words: rosters = rosters.filter(name__icontains=word)\<close>.\<close>

definition filter_words :: "string list \<Rightarrow> roster list \<Rightarrow> roster list" where
  "filter_words query_words rosters =
     fold (\<lambda>word rs. filter (\<lambda>r. icontains (r_name r) word) rs) query_words rosters"

text \<open>\<^verbatim>\<open>Attendance.objects.filter(name=name).values_list('employee_id', flat=True).first()\<close>\<close>

definition first_employee_id :: "string option \<Rightarrow> attendance list \<Rightarrow> string option" where
  "first_employee_id name attendances =
     (case filter (\<lambda>a. a_name a = name) attendances of
        [] \<Rightarrow> None
      | a # rest \<Rightarrow> a_employee_id a)"

definition count_result_for ::
  "date \<Rightarrow> date \<Rightarrow> roster list \<Rightarrow> attendance list \<Rightarrow> string option \<Rightarrow> count_result" where
  "count_result_for start_date end_date rosters_query attendances name =
     \<lparr>employee = name,
      employee_id = first_employee_id name attendances,
      period_start = start_date,
      period_end = end_date,
      counts_of = count_entries (filter (\<lambda>r. r_name r = name) rosters_query)\<rparr>"

definition perform_count ::
  "(string \<Rightarrow> date option) \<Rightarrow> query_params \<Rightarrow> roster list \<times> attendance list \<Rightarrow> response" where
  "perform_count to_date request stores =
     (let query = p_q request; eid = p_id request in
      if \<not> truthy query \<and> \<not> truthy eid then (400, NameOrIdRequired)
      else
        (case get_date_range to_date request (snd stores) of
           Inl e \<Rightarrow> (500, Unhandled e)
         | Inr None \<Rightarrow> (404, NoDataForPeriod)
         | Inr (Some (start_date, end_date)) \<Rightarrow>
             (let rosters_query = rosters_in_range start_date end_date (fst stores) in
              if truthy eid then
                (let employee_names = names_with_id (str_of eid) start_date end_date (snd stores) in
                 if employee_names = [] then (404, NoEmployeeWithId (str_of eid))
                 else (200, CountResults
                         (map (count_result_for start_date end_date rosters_query (snd stores))
                            employee_names)))
              else
                (let temp_rosters = filter_words (split (str_of query)) rosters_query;
                     employee_names = unique (map r_name temp_rosters) in
                 if employee_names = [] then (404, NoEmployeeMatching (str_of query))
                 else (200, CountResults
                         (map (count_result_for start_date end_date rosters_query (snd stores))
                            employee_names))))))"

subsection \<open>\<^verbatim>\<open>_find_low_hours\<close> and \<^verbatim>\<open>_find_non_pl_low_hours\<close>\<close>

definition eight_hours :: time where
  "eight_hours = (8, 0, 0)"

text \<open>
  \<^verbatim>\<open>filter(date__range=..., net_office_time__lt=eight_hours).order_by('date', 'name')\<close>;
  a NULL time is less than nothing.
\<close>

definition low_hour_attendances :: "date \<Rightarrow> date \<Rightarrow> attendance list \<Rightarrow> attendance list" where
  "low_hour_attendances start_date end_date attendances =
     sort_key (\<lambda>a. (a_date a, a_name a))
       (filter (\<lambda>a. in_range start_date end_date (a_date a) \<and>
                     (case a_net_office_time a of None \<Rightarrow> False | Some t \<Rightarrow> t < eight_hours))
          attendances)"

text \<open>
  The dictionary \<^verbatim>\<open>roster_map\<close>, built from the roster rows in range whose name is among
  the low-hour names and that \<open>excluded\<close> does not exclude; a later row replaces an
  earlier one under the same key.
\<close>

definition roster_map ::
  "(roster \<Rightarrow> bool) \<Rightarrow> date \<Rightarrow> date \<Rightarrow> attendance list \<Rightarrow> roster list
    \<Rightarrow> (string option \<times> date \<Rightarrow> roster option)" where
  "roster_map excluded start_date end_date low rosters =
     map_of (rev (map (\<lambda>r. (roster_key r, r))
       (filter (\<lambda>r. in_range start_date end_date (r_date r) \<and> name_in (r_name r) (map a_name low) \<and>
                     \<not> excluded r) rosters)))"

definition hours_results ::
  "(string option \<times> date \<Rightarrow> roster option) \<Rightarrow> attendance list \<Rightarrow> hours_result list" where
  "hours_results rmap low =
     concat (map (\<lambda>att. case rmap (a_name att, a_date att) of
                           None \<Rightarrow> []
                         | Some roster_record \<Rightarrow>
                             [\<lparr>h_name = a_name att, h_employee_id = a_employee_id att,
                               h_team = r_team roster_record, h_date = a_date att,
                               h_shift = r_schedule roster_record,
                               h_net_office_time = a_net_office_time att\<rparr>]) low)"

definition pl_or_wo :: "roster \<Rightarrow> bool" where
  "pl_or_wo r = (iexact (r_schedule r) ''PL'' \<or> iexact (r_schedule r) ''WO'')"

definition pl_only :: "roster \<Rightarrow> bool" where
  "pl_only r = iexact (r_schedule r) ''PL''"

definition find_low_hours ::
  "(string \<Rightarrow> date option) \<Rightarrow> query_params \<Rightarrow> roster list \<times> attendance list \<Rightarrow> response" where
  "find_low_hours to_date request stores =
     (case get_date_range to_date request (snd stores) of
        Inl e \<Rightarrow> (500, Unhandled e)
      | Inr None \<Rightarrow> (404, NoDataFound)
      | Inr (Some (start_date, end_date)) \<Rightarrow>
          (let low = low_hour_attendances start_date end_date (snd stores);
               results = hours_results (roster_map pl_or_wo start_date end_date low (fst stores)) low
           in (200, LowHours (length results) results)))"

definition find_non_pl_low_hours ::
  "(string \<Rightarrow> date option) \<Rightarrow> query_params \<Rightarrow> roster list \<times> attendance list \<Rightarrow> response" where
  "find_non_pl_low_hours to_date request stores =
     (case get_date_range to_date request (snd stores) of
        Inl e \<Rightarrow> (500, Unhandled e)
      | Inr None \<Rightarrow> (404, NoDataFound)
      | Inr (Some (start_date, end_date)) \<Rightarrow>
          (let low = low_hour_attendances start_date end_date (snd stores);
               results = hours_results (roster_map pl_only start_date end_date low (fst stores)) low
           in (200, NonPlLowHours (length results) results)))"

subsection \<open>\<^verbatim>\<open>_perform_search\<close> and the dispatch\<close>

definition search_rosters ::
  "query_params \<Rightarrow> roster list \<Rightarrow> roster list" where
  "search_rosters request rosters =
     (let rosters = (if truthy (p_teamname request)
                     then filter (\<lambda>r. iexact (r_team r) (str_of (p_teamname request))) rosters
                     else rosters);
          rosters = (if truthy (p_q request)
                     then filter_words (split (str_of (p_q request))) rosters else rosters);
          rosters = (if truthy (p_shift request)
                     then filter (\<lambda>r. iexact (r_schedule r) (str_of (p_shift request))) rosters
                     else rosters)
      in sort_key (\<lambda>r. (r_date r, r_name r)) rosters)"

definition search_results ::
  "date \<Rightarrow> date \<Rightarrow> roster list \<Rightarrow> attendance list \<Rightarrow> search_result list" where
  "search_results start_date end_date rosters attendances =
     (let names_to_fetch = unique (map r_name rosters);
          attendance_data =
            filter (\<lambda>a. name_in (a_name a) names_to_fetch \<and>
                        in_range start_date end_date (a_date a)) attendances;
          attendance_map = map_of (rev (map (\<lambda>a. (attendance_key a, a)) attendance_data))
      in map (\<lambda>r. \<lparr>s_name = r_name r, s_team = r_team r, s_date = r_date r,
                   s_schedule = r_schedule r,
                   s_attendance = attendance_map (r_name r, r_date r)\<rparr>) rosters)"

definition perform_search ::
  "(string \<Rightarrow> date option) \<Rightarrow> query_params \<Rightarrow> roster list \<times> attendance list \<Rightarrow> response" where
  "perform_search to_date request stores =
     (case get_date_range to_date request (snd stores) of
        Inl e \<Rightarrow> (500, Unhandled e)
      | Inr None \<Rightarrow> (404, NoDataForPeriod)
      | Inr (Some (start_date, end_date)) \<Rightarrow>
          (let rosters = rosters_in_range start_date end_date (fst stores) in
           if truthy (p_id request) then
             (let names = names_with_id (str_of (p_id request)) start_date end_date (snd stores) in
              if names = [] then (200, SearchResults [])
              else (200, SearchResults
                      (search_results start_date end_date
                         (search_rosters request (filter (\<lambda>r. name_in (r_name r) names) rosters))
                         (snd stores))))
           else (200, SearchResults
                   (search_results start_date end_date (search_rosters request rosters)
                      (snd stores)))))"

text \<open>\<^verbatim>\<open>SearchView.get\<close>: a query reads the stores and returns a response only.\<close>

definition get ::
  "(string \<Rightarrow> date option) \<Rightarrow> query_params \<Rightarrow> roster list \<times> attendance list \<Rightarrow> response" where
  "get to_date request stores =
     (if p_action request = Some ''count'' then perform_count to_date request stores
      else if p_action request = Some ''low_hours'' then find_low_hours to_date request stores
      else if p_action request = Some ''non_pl_low_hours''
        then find_non_pl_low_hours to_date request stores
      else perform_search to_date request stores)"

section \<open>Notions of the specification\<close>

text \<open>
  The first encountered maximum of a score over a list of candidates: every candidate
  before it scores strictly less, every candidate after it scores at most as much.
\<close>

definition first_best :: "('a \<Rightarrow> real) \<Rightarrow> 'a list \<Rightarrow> 'a \<Rightarrow> bool" where
  "first_best f xs c =
     (\<exists>pre post. xs = pre @ c # post \<and> (\<forall>x \<in> set pre. f x < f c) \<and> (\<forall>x \<in> set post. f x \<le> f c))"

text \<open>The outcome of the reconciler for one raw name: the best candidate if its score reaches 90.\<close>

definition reconciled :: "(string \<Rightarrow> string \<Rightarrow> real) \<Rightarrow> string list \<Rightarrow> string \<Rightarrow> string option" where
  "reconciled sc roster_names raw =
     (case extractOne sc raw roster_names of
        None \<Rightarrow> None
      | Some (c, s) \<Rightarrow> if s \<ge> 90 then Some c else None)"

section \<open>Example data\<close>

definition example_scorer :: "string \<Rightarrow> string \<Rightarrow> real" where
  "example_scorer raw c =
     (if raw = c then 100
      else if raw = ''J. Doe'' \<and> c = ''John Doe'' then 90
      else if raw = ''Jon Do'' \<and> c = ''John Doe'' then 89
      else 0)"

section \<open>Auxiliary notions for the proofs\<close>

text \<open>The row of a table under a key, and a map after the writes of a list of rows.\<close>

definition rows_by :: "('r \<Rightarrow> 'k) \<Rightarrow> 'r list \<Rightarrow> ('k \<Rightarrow> 'r option)" where
  "rows_by key rows = map_of (map (\<lambda>r. (key r, r)) rows)"

definition overwrite :: "('r \<Rightarrow> 'k) \<Rightarrow> 'r list \<Rightarrow> ('k \<Rightarrow> 'r option) \<Rightarrow> ('k \<Rightarrow> 'r option)" where
  "overwrite key news m = fold (\<lambda>n m. m(key n \<mapsto> n)) news m"

text \<open>
  The rows that \<^verbatim>\<open>_process_roster_data\<close> writes, in order: one for every column whose
  header is a number that is a day of the month.
\<close>

definition roster_writes_of_items ::
  "nat \<Rightarrow> nat \<Rightarrow> string option \<Rightarrow> string option \<Rightarrow> (string \<times> string option) list \<Rightarrow> roster list" where
  "roster_writes_of_items year month name team items =
     concat (map (\<lambda>item.
       if isdigit (fst item) \<and> valid_date (year, month, int_of_digits (fst item))
       then [\<lparr>r_name = name, r_date = (year, month, int_of_digits (fst item)), r_team = team,
              r_schedule = snd item\<rparr>]
       else []) items)"

definition roster_writes :: "nat \<Rightarrow> nat \<Rightarrow> roster_row list \<Rightarrow> roster list" where
  "roster_writes year month df =
     concat (map (\<lambda>row. roster_writes_of_items year month (rr_name row) (rr_team row) (rr_items row)) df)"

text \<open>
  What \<^verbatim>\<open>_process_attendance_data\<close> does with one row does not depend on the store: it
  raises, skips the row, or writes one record. The writes of a sheet are the records of
  the rows before the first exception.
\<close>

definition attendance_write ::
  "lib \<Rightarrow> string option \<times> attendance_row \<Rightarrow> pyerror + attendance option" where
  "attendance_write L nrow =
     (case process_attendance_row L nrow [] of
        Inl e \<Rightarrow> Inl e
      | Inr [] \<Rightarrow> Inr None
      | Inr (r # rs) \<Rightarrow> Inr (Some r))"

fun attendance_writes ::
  "lib \<Rightarrow> (string option \<times> attendance_row) list \<Rightarrow> attendance list \<times> pyerror option" where
  "attendance_writes L [] = ([], None)"
| "attendance_writes L (nrow # df) =
     (case attendance_write L nrow of
        Inl e \<Rightarrow> ([], Some e)
      | Inr None \<Rightarrow> attendance_writes L df
      | Inr (Some r) \<Rightarrow> (r # fst (attendance_writes L df), snd (attendance_writes L df)))"

(*PROPERTIES*)
section \<open>Properties of the time normalizer\<close>

lemma hms_bounds:
  fixes n :: int
  assumes "0 \<le> n" "n \<le> 86399"
  shows "0 \<le> n div 3600" "n div 3600 < 24"
    "0 \<le> n mod 3600 div 60" "n mod 3600 div 60 < 60"
    "0 \<le> n mod 3600 mod 60" "n mod 3600 mod 60 < 60"
proof -
  show "0 \<le> n div 3600" using assms(1) by (simp add: pos_imp_zdiv_nonneg_iff)
  have "n div 3600 \<le> 86399 div 3600" using assms(2) by (rule zdiv_mono1) simp
  then show "n div 3600 < 24" by simp
  have r: "0 \<le> n mod 3600" "n mod 3600 \<le> 3599"
    using pos_mod_bound[of 3600 n] by simp_all
  show "0 \<le> n mod 3600 div 60" using r(1) by (simp add: pos_imp_zdiv_nonneg_iff)
  have "n mod 3600 div 60 \<le> 3599 div 60" using r(2) by (rule zdiv_mono1) simp
  then show "n mod 3600 div 60 < 60" by simp
  show "0 \<le> n mod 3600 mod 60" by simp
  show "n mod 3600 mod 60 < 60" by simp
qed

lemma to_safe_time_fraction:
  assumes "0 \<le> t"
  shows "to_safe_time p (Num t) =
   Inr (Some (min \<lfloor>t * 86400\<rfloor> 86399 div 3600,
              min \<lfloor>t * 86400\<rfloor> 86399 mod 3600 div 60,
              min \<lfloor>t * 86400\<rfloor> 86399 mod 3600 mod 60))"
proof -
  define n where "n = min \<lfloor>t * 86400\<rfloor> 86399"
  have e1: "t * 24 * 60 * 60 = t * 86400" by simp
  have e: "py_int (t * 24 * 60 * 60) = \<lfloor>t * 86400\<rfloor>"
    unfolding e1 using assms by (simp add: py_int_def)
  have "0 \<le> \<lfloor>t * 86400\<rfloor>" using assms by simp
  then have n0: "0 \<le> n" and n1: "n \<le> 86399" by (simp_all add: n_def)
  have "datetime_time (n div 3600) (n mod 3600 div 60) (n mod 3600 mod 60) =
        Inr (n div 3600, n mod 3600 div 60, n mod 3600 mod 60)"
    using hms_bounds[OF n0 n1] by (simp only: datetime_time_def simp_thms if_True)
  then show ?thesis
    unfolding to_safe_time_def cell.case Let_def e n_def[symmetric] by simp
qed

lemma to_safe_time_half: "to_safe_time p (Num (1 / 2)) = Inr (Some (12, 0, 0))"
  by (simp add: to_safe_time_def py_int_def datetime_time_def Let_def)

lemma to_safe_time_ge_one:
  assumes "1 \<le> t"
  shows "to_safe_time p (Num t) = Inr (Some (23, 59, 59))"
proof -
  have "86400 \<le> t * 86400" using assms by simp
  then have "86400 \<le> \<lfloor>t * 86400\<rfloor>" by (simp add: le_floor_iff)
  then have m: "min \<lfloor>t * 86400\<rfloor> 86399 = 86399" by simp
  have "0 \<le> t" using assms by simp
  from to_safe_time_fraction[OF this, of p] show ?thesis unfolding m by simp
qed

lemma to_safe_time_missing: "to_safe_time p Missing = Inr None"
  by (simp add: to_safe_time_def)

lemma to_safe_time_negative:
  assumes "t * 86400 \<le> - 1"
  shows "to_safe_time p (Num t) = Inl ValueError"
proof -
  have e1: "t * 24 * 60 * 60 = t * 86400" by simp
  have neg: "\<not> 0 \<le> t * 86400" using assms by simp
  have c: "\<lceil>t * 86400\<rceil> \<le> - 1" using assms by (simp add: ceiling_le_iff)
  define n where "n = \<lceil>t * 86400\<rceil>"
  have n: "n \<le> - 1" using c by (simp add: n_def)
  have m: "min n 86399 = n" using n by simp
  have "n div 3600 < 0" using n by (simp add: neg_imp_zdiv_neg_iff)
  then have "datetime_time (n div 3600) (n mod 3600 div 60) (n mod 3600 mod 60) = Inl ValueError"
    by (simp add: datetime_time_def)
  moreover have "py_int (t * 24 * 60 * 60) = n"
    unfolding e1 using neg by (simp add: py_int_def n_def)
  ultimately show ?thesis
    unfolding to_safe_time_def cell.case Let_def using m by simp
qed

text \<open>
  Claim C4. For every numeric cell the normalizer should return the time of day obtained by
  truncation, clamping at 86399 and decomposition. The lemmas above show that for every
  number that is not negative (0.5 gives 12:00:00, every number from 1.0 on gives
  23:59:59) and for a missing cell. A negative number of at least one second is not
  guarded: the decomposition yields a negative hour and \<^verbatim>\<open>datetime.time\<close> raises
  ValueError instead of returning, here at minus half a day.
\<close>

theorem to_safe_time_negative_raises: "to_safe_time p (Num (- 1 / 2)) = Inl ValueError"
  by (simp add: to_safe_time_def py_int_def datetime_time_def Let_def)

section \<open>Properties of the name reconciler\<close>

lemma first_best_le:
  assumes "xs = p @ c # q" "\<forall>x\<in>set p. f x < f c" "\<forall>x\<in>set q. f x \<le> f c" "y \<in> set xs"
  shows "f y \<le> (f c :: real)"
proof -
  from assms(1,4) have "y \<in> set p \<or> y = c \<or> y \<in> set q" by auto
  then show ?thesis using assms(2,3) by (auto simp: less_imp_le)
qed

lemma first_best_in_set: "first_best f xs c \<Longrightarrow> c \<in> set xs"
  unfolding first_best_def by auto

lemma first_best_unique:
  assumes "first_best f xs c" "first_best f xs c'"
  shows "c = c'"
proof (rule ccontr)
  assume ne: "c \<noteq> c'"
  from assms(1) obtain p q where 1: "xs = p @ c # q" "\<forall>x\<in>set p. f x < f c" "\<forall>x\<in>set q. f x \<le> f c"
    unfolding first_best_def by blast
  from assms(2) obtain p' q' where 2: "xs = p' @ c' # q'" "\<forall>x\<in>set p'. f x < f c'" "\<forall>x\<in>set q'. f x \<le> f c'"
    unfolding first_best_def by blast
  have le1: "f c' \<le> f c" by (rule first_best_le[OF 1]) (simp add: 2(1))
  have le2: "f c \<le> f c'" by (rule first_best_le[OF 2]) (simp add: 1(1))
  have eq: "p @ c # q = p' @ c' # q'" using 1(1) 2(1) by simp
  have "length p \<noteq> length p'"
  proof
    assume "length p = length p'"
    with eq have "c = c'" by simp
    with ne show False by simp
  qed
  then consider "length p < length p'" | "length p' < length p" by linarith
  then show False
  proof cases
    case 1
    have "(p' @ c' # q') ! length p = p' ! length p" using 1 by (simp add: nth_append)
    moreover have "(p @ c # q) ! length p = c" by simp
    ultimately have "c = p' ! length p" using eq by simp
    then have "c \<in> set p'" using 1 by simp
    with 2(2) le1 show False by force
  next
    case 2
    have "(p @ c # q) ! length p' = p ! length p'" using 2 by (simp add: nth_append)
    moreover have "(p' @ c' # q') ! length p' = c'" by simp
    ultimately have "c' = p ! length p'" using eq by simp
    then have "c' \<in> set p" using 2 by simp
    with \<open>\<forall>x\<in>set p. f x < f c\<close> le2 show False by force
  qed
qed

lemma extractOne_loop_Some:
  "extractOne_loop f xs (Some (b, f b)) = Some (c, s) \<Longrightarrow>
     s = f c \<and> ((c = b \<and> (\<forall>x\<in>set xs. f x \<le> f b)) \<or> (f b < f c \<and> first_best f xs c))"
proof (induction xs arbitrary: b)
  case Nil
  then show ?case by auto
next
  case (Cons x xs)
  show ?case
  proof (cases "f x > f b")
    case True
    with Cons.prems have "extractOne_loop f xs (Some (x, f x)) = Some (c, s)" by simp
    from Cons.IH[OF this] have s: "s = f c"
      and d: "(c = x \<and> (\<forall>y\<in>set xs. f y \<le> f x)) \<or> (f x < f c \<and> first_best f xs c)" by auto
    from d have "f b < f c \<and> first_best f (x # xs) c"
    proof
      assume a: "c = x \<and> (\<forall>y\<in>set xs. f y \<le> f x)"
      then have "x # xs = [] @ c # xs \<and> (\<forall>y\<in>set []. f y < f c) \<and> (\<forall>y\<in>set xs. f y \<le> f c)" by simp
      then have "first_best f (x # xs) c" unfolding first_best_def by blast
      with a True show ?thesis by simp
    next
      assume a: "f x < f c \<and> first_best f xs c"
      then obtain p q where "xs = p @ c # q" "\<forall>y\<in>set p. f y < f c" "\<forall>y\<in>set q. f y \<le> f c"
        unfolding first_best_def by blast
      with a have "x # xs = (x # p) @ c # q \<and> (\<forall>y\<in>set (x # p). f y < f c) \<and> (\<forall>y\<in>set q. f y \<le> f c)" by simp
      then have "first_best f (x # xs) c" unfolding first_best_def by blast
      with a True show ?thesis by simp
    qed
    with s show ?thesis by simp
  next
    case False
    with Cons.prems have "extractOne_loop f xs (Some (b, f b)) = Some (c, s)" by simp
    from Cons.IH[OF this] have s: "s = f c"
      and d: "(c = b \<and> (\<forall>y\<in>set xs. f y \<le> f b)) \<or> (f b < f c \<and> first_best f xs c)" by auto
    from d show ?thesis
    proof
      assume "c = b \<and> (\<forall>y\<in>set xs. f y \<le> f b)"
      with False s show ?thesis by auto
    next
      assume a: "f b < f c \<and> first_best f xs c"
      then obtain p q where "xs = p @ c # q" "\<forall>y\<in>set p. f y < f c" "\<forall>y\<in>set q. f y \<le> f c"
        unfolding first_best_def by blast
      with a False have "x # xs = (x # p) @ c # q \<and> (\<forall>y\<in>set (x # p). f y < f c) \<and> (\<forall>y\<in>set q. f y \<le> f c)" by auto
      then have "first_best f (x # xs) c" unfolding first_best_def by blast
      with a s show ?thesis by simp
    qed
  qed
qed

lemma extractOne_loop_total: "\<exists>c s. extractOne_loop f xs (Some (b, t)) = Some (c, s)"
proof (induction xs arbitrary: b t)
  case Nil
  show ?case by simp
next
  case (Cons x xs)
  show ?case
  proof (cases "f x > t")
    case True
    then have "extractOne_loop f (x # xs) (Some (b, t)) = extractOne_loop f xs (Some (x, f x))"
      by simp
    with Cons.IH[of x "f x"] show ?thesis by simp
  next
    case False
    then have "extractOne_loop f (x # xs) (Some (b, t)) = extractOne_loop f xs (Some (b, t))"
      by simp
    with Cons.IH[of b t] show ?thesis by simp
  qed
qed

lemma extractOne_Nil: "extractOne sc q [] = None"
  by (simp add: extractOne_def)

lemma first_best_Nil: "\<not> first_best f [] c"
  by (simp add: first_best_def)

lemma first_best_head:
  assumes "\<forall>y\<in>set xs. f y \<le> f x"
  shows "first_best f (x # xs) x"
proof -
  have "x # xs = [] @ x # xs \<and> (\<forall>y\<in>set []. f y < f x) \<and> (\<forall>y\<in>set xs. f y \<le> f x)"
    using assms by simp
  then show ?thesis unfolding first_best_def by blast
qed

lemma first_best_later:
  assumes "f x < f c" "first_best f xs c"
  shows "first_best f (x # xs) c"
proof -
  from assms(2) obtain p r where "xs = p @ c # r" "\<forall>y\<in>set p. f y < f c" "\<forall>y\<in>set r. f y \<le> f c"
    unfolding first_best_def by blast
  with assms(1) have "x # xs = (x # p) @ c # r \<and> (\<forall>y\<in>set (x # p). f y < f c) \<and> (\<forall>y\<in>set r. f y \<le> f c)"
    by simp
  then show ?thesis unfolding first_best_def by blast
qed

lemma extractOne_Some_iff:
  "extractOne sc q choices = Some (c, s) \<longleftrightarrow> first_best (sc q) choices c \<and> s = sc q c"
proof (cases choices)
  case Nil
  then show ?thesis by (simp add: extractOne_def first_best_Nil)
next
  case (Cons x xs)
  define f where "f = sc q"
  have start: "extractOne sc q choices = extractOne_loop f xs (Some (x, f x))"
    using Cons by (simp add: extractOne_def f_def)
  have "\<exists>c0 s0. extractOne_loop f xs (Some (x, f x)) = Some (c0, s0)"
    by (rule extractOne_loop_total)
  then obtain c0 s0 where r: "extractOne_loop f xs (Some (x, f x)) = Some (c0, s0)"
    by (elim exE)
  have s0: "s0 = f c0"
    using extractOne_loop_Some[OF r] by (rule conjunct1)
  have d: "(c0 = x \<and> (\<forall>y\<in>set xs. f y \<le> f x)) \<or> (f x < f c0 \<and> first_best f xs c0)"
    using extractOne_loop_Some[OF r] by (rule conjunct2)
  have fb: "first_best f choices c0"
    using d
  proof
    assume "c0 = x \<and> (\<forall>y\<in>set xs. f y \<le> f x)"
    then show ?thesis using Cons first_best_head[of xs f x] by simp
  next
    assume "f x < f c0 \<and> first_best f xs c0"
    then show ?thesis using Cons first_best_later[of f x c0 xs] by simp
  qed
  have res: "extractOne sc q choices = Some (c0, f c0)"
    using start r s0 by simp
  show ?thesis
  proof
    assume "extractOne sc q choices = Some (c, s)"
    with res have "c = c0 \<and> s = f c0" by simp
    with fb show "first_best (sc q) choices c \<and> s = sc q c" by (simp add: f_def)
  next
    assume a: "first_best (sc q) choices c \<and> s = sc q c"
    then have "first_best f choices c" by (simp add: f_def)
    then have "c = c0" using fb by (rule first_best_unique)
    with a res show "extractOne sc q choices = Some (c, s)" by (simp add: f_def)
  qed
qed

lemma map_of_name_map_step:
  "map_of (name_map_step sc rn a nm) raw =
     (if raw = a \<and> reconciled sc rn a \<noteq> None then reconciled sc rn a else map_of nm raw)"
proof (cases "extractOne sc a rn")
  case None
  then show ?thesis by (simp add: name_map_step_def reconciled_def)
next
  case (Some m)
  obtain c s where m: "m = (c, s)" by (cases m)
  show ?thesis using Some m by (simp add: name_map_step_def reconciled_def update_conv')
qed

lemma map_of_fold_name_map_step:
  "map_of (fold (name_map_step sc rn) ans nm) raw =
     (if raw \<in> set ans \<and> reconciled sc rn raw \<noteq> None then reconciled sc rn raw
      else map_of nm raw)"
proof (induction ans arbitrary: nm)
  case Nil
  show ?case by simp
next
  case (Cons a ans)
  show ?case
  proof (cases "raw \<in> set ans \<and> reconciled sc rn raw \<noteq> None")
    case True
    then show ?thesis by (simp add: Cons.IH)
  next
    case False
    then show ?thesis by (auto simp add: Cons.IH map_of_name_map_step)
  qed
qed

lemma map_of_build_name_map:
  "map_of (build_name_map sc rn ans) raw =
     (if raw \<in> set ans then reconciled sc rn raw else None)"
  by (simp add: build_name_map_def map_of_fold_name_map_step)

lemma reconciled_Some_iff:
  "reconciled sc rn raw = Some c \<longleftrightarrow> first_best (sc raw) rn c \<and> sc raw c \<ge> 90"
proof -
  have "reconciled sc rn raw = Some c \<longleftrightarrow>
        (\<exists>s. extractOne sc raw rn = Some (c, s) \<and> s \<ge> 90)"
    by (auto simp: reconciled_def split: option.splits if_splits)
  then show ?thesis by (auto simp: extractOne_Some_iff)
qed

text \<open>
  Claim C3. The name map sends a raw attendance name to a canonical name exactly when that
  name is the first encountered maximum of the score over the roster names and the score
  is at least 90; in every other case the raw name has no entry.
\<close>

theorem name_reconciler_threshold:
  "map_of (build_name_map sc roster_names attendance_names) raw = Some c \<longleftrightarrow>
     raw \<in> set attendance_names \<and> first_best (sc raw) roster_names c \<and> sc raw c \<ge> 90"
  by (simp add: map_of_build_name_map reconciled_Some_iff)


theorem name_reconciler_threshold_witness:
  "map_of (build_name_map example_scorer [''Ann'', ''John Doe''] [''J. Doe'', ''Jon Do''])
     ''J. Doe'' = Some ''John Doe'' \<and>
   example_scorer ''J. Doe'' ''John Doe'' = 90 \<and>
   map_of (build_name_map example_scorer [''Ann'', ''John Doe''] [''J. Doe'', ''Jon Do''])
     ''Jon Do'' = None"
proof -
  let ?rn = "[''Ann'', ''John Doe'']" and ?an = "[''J. Doe'', ''Jon Do'']"
  have fb: "first_best (example_scorer ''J. Doe'') ?rn ''John Doe''"
    by (rule first_best_later) (simp_all add: example_scorer_def first_best_head)
  have sc: "example_scorer ''J. Doe'' ''John Doe'' = 90" by (simp add: example_scorer_def)
  have 1: "map_of (build_name_map example_scorer ?rn ?an) ''J. Doe'' = Some ''John Doe''"
    using name_reconciler_threshold[of example_scorer ?rn ?an "''J. Doe''" "''John Doe''"] fb sc
    by simp
  have 2: "map_of (build_name_map example_scorer ?rn ?an) ''Jon Do'' = None"
  proof (cases "map_of (build_name_map example_scorer ?rn ?an) ''Jon Do''")
    case None
    then show ?thesis .
  next
    case (Some c)
    then have c: "first_best (example_scorer ''Jon Do'') ?rn c \<and> 90 \<le> example_scorer ''Jon Do'' c"
      using name_reconciler_threshold[of example_scorer ?rn ?an "''Jon Do''" c] by simp
    then have "c \<in> set ?rn" by (intro first_best_in_set[of "example_scorer ''Jon Do''"]) (rule conjunct1)
    then have "example_scorer ''Jon Do'' c < 90" by (auto simp: example_scorer_def)
    with c show ?thesis by simp
  qed
  from 1 sc 2 show ?thesis by simp
qed

section \<open>Properties of the stores\<close>

lemma set_update_or_create: "set (update_or_create key new s) \<subseteq> insert new (set s)"
  by (induction s) auto

lemma keys_update_or_create:
  "map key (update_or_create key new s) =
     (if key new \<in> set (map key s) then map key s else map key s @ [key new])"
  by (induction s) auto

lemma key_set_update_or_create:
  "key ` set (update_or_create key new s) = insert (key new) (key ` set s)"
proof -
  have "set (map key (update_or_create key new s)) = insert (key new) (set (map key s))"
    unfolding keys_update_or_create by auto
  then show ?thesis by simp
qed

lemma distinct_update_or_create:
  "distinct (map key s) \<Longrightarrow> distinct (map key (update_or_create key new s))"
  unfolding keys_update_or_create by simp

lemma rows_by_update_or_create:
  "rows_by key (update_or_create key new s) = (rows_by key s)(key new \<mapsto> new)"
  by (induction s) (auto simp: rows_by_def fun_eq_iff)

lemma set_fold_update_or_create:
  "set (fold (update_or_create key) news s) \<subseteq> set news \<union> set s"
proof (induction news arbitrary: s)
  case Nil
  show ?case by simp
next
  case (Cons n news)
  have "set (fold (update_or_create key) news (update_or_create key n s))
          \<subseteq> set news \<union> set (update_or_create key n s)" by (rule Cons.IH)
  also have "\<dots> \<subseteq> set news \<union> insert n (set s)"
    using set_update_or_create[of key n s] by blast
  finally show ?case by auto
qed

lemma key_set_fold_update_or_create:
  "key ` set (fold (update_or_create key) news s) = key ` set news \<union> key ` set s"
  by (induction news arbitrary: s) (auto simp: key_set_update_or_create)

lemma distinct_fold_update_or_create:
  "distinct (map key s) \<Longrightarrow> distinct (map key (fold (update_or_create key) news s))"
  by (induction news arbitrary: s) (simp_all add: distinct_update_or_create)

lemma keys_fold_present:
  "key ` set news \<subseteq> key ` set s \<Longrightarrow> map key (fold (update_or_create key) news s) = map key s"
proof (induction news arbitrary: s)
  case Nil
  show ?case by simp
next
  case (Cons n news)
  have k: "map key (update_or_create key n s) = map key s"
    using Cons.prems by (simp add: keys_update_or_create)
  then have "key ` set (update_or_create key n s) = key ` set s"
    by (metis set_map)
  with Cons.prems have "key ` set news \<subseteq> key ` set (update_or_create key n s)" by simp
  from Cons.IH[OF this] k show ?case by simp
qed

lemma rows_by_fold:
  "rows_by key (fold (update_or_create key) news s) = overwrite key news (rows_by key s)"
  by (induction news arbitrary: s) (simp_all add: overwrite_def rows_by_update_or_create)

lemma overwrite_add: "overwrite key news m = m ++ overwrite key news Map.empty"
proof (induction news arbitrary: m)
  case Nil
  show ?case by (simp add: overwrite_def)
next
  case (Cons n news)
  have "overwrite key (n # news) m = overwrite key news (m(key n \<mapsto> n))"
    by (simp add: overwrite_def)
  also have "\<dots> = m(key n \<mapsto> n) ++ overwrite key news Map.empty" by (rule Cons.IH)
  also have "\<dots> = m ++ ([key n \<mapsto> n] ++ overwrite key news Map.empty)"
    by (simp add: map_add_upd_left fun_eq_iff map_add_def split: option.splits)
  also have "[key n \<mapsto> n] ++ overwrite key news Map.empty = overwrite key news [key n \<mapsto> n]"
    by (rule Cons.IH[symmetric])
  also have "overwrite key news [key n \<mapsto> n] = overwrite key (n # news) Map.empty"
    by (simp add: overwrite_def)
  finally show ?case .
qed

lemma overwrite_twice: "overwrite key news (overwrite key news m) = overwrite key news m"
proof -
  have "overwrite key news (overwrite key news m)
        = (m ++ overwrite key news Map.empty) ++ overwrite key news Map.empty"
    using overwrite_add[of key news "overwrite key news m"] overwrite_add[of key news m] by simp
  also have "\<dots> = m ++ overwrite key news Map.empty"
    by (simp add: fun_eq_iff map_add_def split: option.splits)
  finally show ?thesis using overwrite_add[of key news m] by simp
qed

lemma rows_by_None: "rows_by key s k = None \<longleftrightarrow> k \<notin> set (map key s)"
  by (simp add: rows_by_def map_of_eq_None_iff image_image)

lemma rows_by_Cons:
  "rows_by key (x # xs) k = (if k = key x then Some x else rows_by key xs k)"
  by (simp add: rows_by_def)

lemma rows_eqI:
  "distinct (map key s) \<Longrightarrow> map key s = map key t \<Longrightarrow> rows_by key s = rows_by key t \<Longrightarrow> s = t"
proof (induction s arbitrary: t)
  case Nil
  then show ?case by simp
next
  case (Cons x xs)
  from Cons.prems(2) obtain y ys where t: "t = y # ys" by (cases t) auto
  with Cons.prems(2) have k: "key x = key y" and ks: "map key xs = map key ys" by simp_all
  have "rows_by key (x # xs) (key x) = rows_by key (y # ys) (key x)"
    using Cons.prems(3) t by simp
  then have xy: "x = y" using k by (simp add: rows_by_Cons)
  have notin: "key x \<notin> set (map key xs)" using Cons.prems(1) by simp
  have "rows_by key xs k' = rows_by key ys k'" for k'
  proof (cases "k' = key x")
    case True
    have "rows_by key xs k' = None" using notin True by (simp only: rows_by_None not_False_eq_True)
    moreover have "rows_by key ys k' = None" using notin True ks
      by (simp only: rows_by_None not_False_eq_True)
    ultimately show ?thesis by simp
  next
    case False
    have "rows_by key (x # xs) k' = rows_by key (y # ys) k'" using Cons.prems(3) t by simp
    then show ?thesis using False k by (simp add: rows_by_Cons)
  qed
  then have "rows_by key xs = rows_by key ys" by (simp add: fun_eq_iff)
  with Cons.IH[of ys] Cons.prems(1) ks have "xs = ys" by simp
  with xy t show ?case by simp
qed

lemma fold_update_or_create_idem:
  assumes "distinct (map key s)"
  shows "fold (update_or_create key) news (fold (update_or_create key) news s)
         = fold (update_or_create key) news s"
proof -
  let ?s1 = "fold (update_or_create key) news s"
  have d: "distinct (map key ?s1)" using assms by (rule distinct_fold_update_or_create)
  have "key ` set news \<subseteq> key ` set ?s1" by (simp add: key_set_fold_update_or_create)
  then have k: "map key (fold (update_or_create key) news ?s1) = map key ?s1"
    by (rule keys_fold_present)
  have r: "rows_by key (fold (update_or_create key) news ?s1) = rows_by key ?s1"
    by (simp add: rows_by_fold overwrite_twice)
  show ?thesis by (rule rows_eqI[OF d k[symmetric] r[symmetric], symmetric])
qed

lemma process_roster_items_fold:
  "process_roster_items y m name team items s =
     fold (update_or_create roster_key) (roster_writes_of_items y m name team items) s"
proof (induction items arbitrary: s)
  case Nil
  show ?case by (simp add: roster_writes_of_items_def)
next
  case (Cons item items)
  obtain col schedule where i: "item = (col, schedule)" by (cases item)
  show ?case
    unfolding i using Cons.IH
    by (simp add: roster_writes_of_items_def datetime_date_def)
qed

lemma process_roster_data_fold:
  "process_roster_data y m df s = fold (update_or_create roster_key) (roster_writes y m df) s"
proof (induction df arbitrary: s)
  case Nil
  show ?case by (simp add: roster_writes_def)
next
  case (Cons row df)
  show ?case using Cons.IH
    by (simp add: roster_writes_def process_roster_items_fold)
qed

section \<open>Properties of the upload\<close>

lemma process_attendance_row_cases:
  "(\<exists>e. \<forall>s. process_attendance_row L nrow s = Inl e) \<or>
   (\<exists>r. a_name r = fst nrow \<and>
        (\<forall>s. process_attendance_row L nrow s = Inr (update_or_create attendance_key r s)))"
proof -
  obtain name row where n: "nrow = (name, row)" by (cases nrow)
  define st where "st = to_datetime (parse_date L) (attendance_date row)"
  note defs = process_attendance_row_def n st_def[symmetric] bool_of_stamp_def
  show ?thesis
  proof (cases "to_safe_time (parse_time L) (first_in row)")
    case (Inl e)
    then show ?thesis by (cases st) (simp_all add: defs)
  next
    case t1: (Inr t1)
    show ?thesis
    proof (cases "to_safe_time (parse_time L) (last_out row)")
      case (Inl e)
      then show ?thesis by (cases st) (simp_all add: defs t1)
    next
      case t2: (Inr t2)
      show ?thesis
      proof (cases "to_safe_time (parse_time L) (gross_time row)")
        case (Inl e)
        then show ?thesis by (cases st) (simp_all add: defs t1 t2)
      next
        case t3: (Inr t3)
        show ?thesis
        proof (cases "to_safe_time (parse_time L) (out_of_office_time row)")
          case (Inl e)
          then show ?thesis by (cases st) (simp_all add: defs t1 t2 t3)
        next
          case t4: (Inr t4)
          show ?thesis
          proof (cases "to_safe_time (parse_time L) (net_office_time row)")
            case (Inl e)
            then show ?thesis by (cases st) (simp_all add: defs t1 t2 t3 t4)
          next
            case t5: (Inr t5)
            show ?thesis
            proof (cases st)
              case PyNone
              then show ?thesis by (simp add: defs)
            next
              case NaT
              then show ?thesis by (simp add: defs t1 t2 t3 t4 t5)
            next
              case (Timestamp d)
              let ?r = "\<lparr>a_name = name, a_date = d, a_employee_id = ads_id row,
                  a_user_type = user_type row, a_designation = designation row,
                  a_department = department row, a_location = location row,
                  a_first_in = t1, a_last_out = t2,
                  a_gross_time = t3, a_out_of_office_time = t4,
                  a_out_of_office_count = out_of_office_count row,
                  a_net_office_time = t5\<rparr>"
              have "a_name ?r = fst nrow \<and>
                (\<forall>s. process_attendance_row L nrow s = Inr (update_or_create attendance_key ?r s))"
                by (simp add: defs Timestamp t1 t2 t3 t4 t5)
              then show ?thesis by blast
            qed
          qed
        qed
      qed
    qed
  qed
qed

lemma process_attendance_row_write:
  "process_attendance_row L nrow s =
     (case attendance_write L nrow of
        Inl e \<Rightarrow> Inl e
      | Inr None \<Rightarrow> Inr s
      | Inr (Some r) \<Rightarrow> Inr (update_or_create attendance_key r s))"
  using process_attendance_row_cases[of L nrow]
proof (elim disjE exE conjE)
  fix e assume "\<forall>s. process_attendance_row L nrow s = Inl e"
  then show ?thesis by (simp add: attendance_write_def)
next
  fix r assume "\<forall>s. process_attendance_row L nrow s = Inr (update_or_create attendance_key r s)"
  then show ?thesis by (simp add: attendance_write_def)
qed

lemma attendance_write_name:
  assumes "attendance_write L nrow = Inr (Some r)"
  shows "a_name r = fst nrow"
  using process_attendance_row_cases[of L nrow]
proof (elim disjE exE conjE)
  fix e assume "\<forall>s. process_attendance_row L nrow s = Inl e"
  with assms show ?thesis by (simp add: attendance_write_def)
next
  fix r' assume n: "a_name r' = fst nrow"
    and "\<forall>s. process_attendance_row L nrow s = Inr (update_or_create attendance_key r' s)"
  with assms have "r = r'" by (simp add: attendance_write_def)
  with n show ?thesis by simp
qed

lemma process_attendance_data_fold:
  "process_attendance_data L df s =
     (snd (attendance_writes L df),
      fold (update_or_create attendance_key) (fst (attendance_writes L df)) s)"
proof (induction df arbitrary: s)
  case Nil
  show ?case by simp
next
  case (Cons nrow df)
  show ?case
  proof (cases "attendance_write L nrow")
    case (Inl e)
    then show ?thesis by (simp add: process_attendance_row_write)
  next
    case (Inr w)
    then show ?thesis by (cases w) (simp_all add: process_attendance_row_write Cons.IH)
  qed
qed

lemma attendance_writes_name:
  "r \<in> set (fst (attendance_writes L df)) \<Longrightarrow> \<exists>nrow\<in>set df. a_name r = fst nrow"
proof (induction df)
  case Nil
  then show ?case by simp
next
  case (Cons nrow df)
  show ?case
  proof (cases "attendance_write L nrow")
    case (Inl e)
    with Cons.prems show ?thesis by simp
  next
    case (Inr w)
    show ?thesis
    proof (cases w)
      case None
      with Inr Cons show ?thesis by simp
    next
      case (Some r')
      with Inr Cons.prems have "r = r' \<or> r \<in> set (fst (attendance_writes L df))" by simp
      then show ?thesis
      proof
        assume "r = r'"
        with Inr Some attendance_write_name[of L nrow r'] show ?thesis by simp
      next
        assume "r \<in> set (fst (attendance_writes L df))"
        with Cons.IH show ?thesis by simp
      qed
    qed
  qed
qed

lemma roster_writes_of_items_name:
  "r \<in> set (roster_writes_of_items y m name team items) \<Longrightarrow> r_name r = name"
  by (auto simp: roster_writes_of_items_def split: if_splits)

lemma roster_writes_name:
  "r \<in> set (roster_writes y m df) \<Longrightarrow> \<exists>row\<in>set df. r_name r = rr_name row"
  by (auto simp: roster_writes_def dest: roster_writes_of_items_name)

lemma distinct_name_map_step:
  "distinct (map fst nm) \<Longrightarrow> distinct (map fst (name_map_step sc rn a nm))"
  by (cases "extractOne sc a rn")
     (auto simp: name_map_step_def distinct_update split: prod.splits)

lemma distinct_build_name_map: "distinct (map fst (build_name_map sc rn ans))"
proof -
  have "distinct (map fst nm) \<Longrightarrow> distinct (map fst (fold (name_map_step sc rn) ans nm))" for nm
    by (induction ans arbitrary: nm) (simp_all add: distinct_name_map_step)
  then show ?thesis by (simp add: build_name_map_def)
qed

lemma name_map_value_iff:
  "n \<in> snd ` set (build_name_map sc rn ans) \<longleftrightarrow>
     (\<exists>raw. map_of (build_name_map sc rn ans) raw = Some n)"
proof
  assume "n \<in> snd ` set (build_name_map sc rn ans)"
  then obtain raw where "(raw, n) \<in> set (build_name_map sc rn ans)" by auto
  then have "map_of (build_name_map sc rn ans) raw = Some n"
    using distinct_build_name_map[of sc rn ans] by simp
  then show "\<exists>raw. map_of (build_name_map sc rn ans) raw = Some n" by blast
next
  assume "\<exists>raw. map_of (build_name_map sc rn ans) raw = Some n"
  then obtain raw where "map_of (build_name_map sc rn ans) raw = Some n" by blast
  then have "(raw, n) \<in> set (build_name_map sc rn ans)" by (rule map_of_SomeD)
  then show "n \<in> snd ` set (build_name_map sc rn ans)" by force
qed

lemma name_map_canonical:
  assumes "map_of (build_name_map sc rn ans) raw = Some n"
  shows "n \<in> set rn \<and> 90 \<le> sc raw n \<and> raw \<in> set ans"
proof -
  from assms have a: "raw \<in> set ans" and r: "reconciled sc rn raw = Some n"
    by (simp_all add: map_of_build_name_map split: if_splits)
  from r have "first_best (sc raw) rn n \<and> 90 \<le> sc raw n" by (simp add: reconciled_Some_iff)
  with a show ?thesis using first_best_in_set[of "sc raw" rn n] by simp
qed

lemma set_unique: "set (unique xs) = set xs"
proof -
  have "set (fold (\<lambda>x seen. if x \<in> set seen then seen else seen @ [x]) xs acc) = set xs \<union> set acc"
    for acc
    by (induction xs arbitrary: acc) auto
  then show ?thesis by (simp add: unique_def)
qed

lemma set_dropna: "set (dropna xs) = {x. Some x \<in> set xs}"
  by (induction xs rule: dropna.induct) auto

lemma post_missing:
  "roster_file request = None \<or> attendance_file request = None \<Longrightarrow>
     post L request stores = ((400, UploadBothFiles), stores)"
  by (auto simp: post_def split: option.splits)

lemma post_no_dates:
  "roster_file request = Some rdf \<Longrightarrow> attendance_file request = Some adf \<Longrightarrow>
   column_dates (parse_date L) adf = [] \<Longrightarrow>
     post L request stores = ((500, ErrorOccurred IndexError), stores)"
  by (simp add: post_def)

lemma post_stores:
  assumes "roster_file request = Some rdf" "attendance_file request = Some adf"
      and "column_dates (parse_date L) adf = d # rest"
  shows "snd (post L request stores) =
     (fold (update_or_create roster_key)
        (roster_writes (fst d) (fst (snd d)) (matched_roster (name_map_of L rdf adf) rdf))
        (fst stores),
      fold (update_or_create attendance_key)
        (fst (attendance_writes L (matched_attendance (name_map_of L rdf adf) adf)))
        (snd stores))"
  using assms
  by (simp add: post_def Let_def process_roster_data_fold process_attendance_data_fold
      split: option.splits)

lemma post_response:
  assumes "roster_file request = Some rdf" "attendance_file request = Some adf"
      and "column_dates (parse_date L) adf = d # rest"
  shows "fst (post L request stores) =
     (case snd (attendance_writes L (matched_attendance (name_map_of L rdf adf) adf)) of
        Some e \<Rightarrow> (500, ErrorOccurred e)
      | None \<Rightarrow> (201, ProcessedFor (fst d) (fst (snd d))))"
  using assms
  by (simp add: post_def Let_def process_attendance_data_fold split: option.splits)

end
